theory Spec2Isabelle
  imports Main "HOL-Library.Sublist" "HOL-Library.AList"
begin

section \<open>Strings of the source\<close>

text \<open>
  The source is JavaScript (\<^verbatim>\<open>src/main.js\<close>). A JavaScript string is a sequence of
  UTF-16 code units; the model covers the code units U+0000 .. U+00FF, one \<^typ>\<open>char\<close>
  each, which is where every character class of the source's regular expressions and
  the whole of ASCII live. On a string of that range \<^verbatim>\<open>toLowerCase\<close> works on each
  code unit by itself: it maps A-Z and the Latin-1 capitals U+00C0 .. U+00DE (U+00D7,
  the multiplication sign, apart) to the code unit 32 above and leaves everything else
  alone. Beyond the range it does not work on single code units (a capital sigma becomes
  one of two small sigmas, by its place in the word); the model says nothing about such
  strings.
\<close>

definition toLowerCase_char :: "char \<Rightarrow> char" where
  "toLowerCase_char c =
     (let n = (of_char c :: nat)
      in if (65 \<le> n \<and> n \<le> 90) \<or> (192 \<le> n \<and> n \<le> 222 \<and> n \<noteq> 215)
         then char_of (n + 32) else c)"

definition toLowerCase :: "string \<Rightarrow> string" where
  "toLowerCase s = map toLowerCase_char s"

text \<open>
  The class \<^verbatim>\<open>\s\<close> of a JavaScript regular expression, which is also what
  \<^verbatim>\<open>trim\<close> strips (WhiteSpace and LineTerminator of ECMAScript): TAB, LF, VT, FF, CR,
  SPACE and NBSP below U+0100.
\<close>

definition is_space :: "char \<Rightarrow> bool" where
  "is_space c =
     (let n = (of_char c :: nat)
      in n = 9 \<or> n = 10 \<or> n = 11 \<or> n = 12 \<or> n = 13 \<or> n = 32 \<or> n = 160)"

text \<open>The class \<^verbatim>\<open>\d\<close>: the ten ASCII digits.\<close>

definition is_digit :: "char \<Rightarrow> bool" where
  "is_digit c = (let n = (of_char c :: nat) in 48 \<le> n \<and> n \<le> 57)"

text \<open>
  The line terminators, which \<^verbatim>\<open>.\<close> does not match in a regular expression
  without the \<^verbatim>\<open>s\<close> flag: LF and CR below U+0100.
\<close>

definition is_line_terminator :: "char \<Rightarrow> bool" where
  "is_line_terminator c = (let n = (of_char c :: nat) in n = 10 \<or> n = 13)"

text \<open>\<^verbatim>\<open>String.prototype.trim\<close>.\<close>

definition trim :: "string \<Rightarrow> string" where
  "trim s = rev (dropWhile is_space (rev (dropWhile is_space s)))"

text \<open>
  \<^verbatim>\<open>s.replace(/\s+/g, ' ')\<close>: every maximal run of whitespace becomes one SPACE.
\<close>

function collapse_spaces :: "string \<Rightarrow> string" where
  "collapse_spaces [] = []"
| "collapse_spaces (c # cs) =
     (if is_space c then CHR '' '' # collapse_spaces (dropWhile is_space cs)
      else c # collapse_spaces cs)"
  by pat_completeness auto
termination
  by (relation "measure length") (auto simp: length_dropWhile_le less_Suc_eq_le)

text \<open>
  \<^verbatim>\<open>const norm = (s) => (s || '').toLowerCase().replace(/\s+/g, ' ').trim();\<close>
  On a string \<^verbatim>\<open>s || ''\<close> is \<^verbatim>\<open>s\<close>.
\<close>

definition norm :: "string \<Rightarrow> string" where
  "norm s = trim (collapse_spaces (toLowerCase s))"

text \<open>
  \<^verbatim>\<open>hay.includes(needle)\<close>: the needle occurs at some position of the haystack;
  the empty needle occurs in every string.
\<close>

fun includes_str :: "string \<Rightarrow> string \<Rightarrow> bool" where
  "includes_str [] needle = (needle = [])"
| "includes_str (c # cs) needle = (prefix needle (c # cs) \<or> includes_str cs needle)"

text \<open>
  \<^verbatim>\<open>s.split(d)\<close> for a one-character separator: the pieces between the
  separators, empty pieces kept; the empty string splits into one empty piece.
\<close>

fun split_on :: "char \<Rightarrow> string \<Rightarrow> string list" where
  "split_on d [] = [[]]"
| "split_on d (c # cs) =
     (if c = d then [] # split_on d cs
      else (case split_on d cs of
              [] \<Rightarrow> [[c]]
            | w # ws \<Rightarrow> (c # w) # ws))"

section \<open>The address parser\<close>

record parsed =
  house :: string
  street :: string
  tokens :: "string list"

text \<open>
  \<^verbatim>\<open>a.match(/^(\d+)\s+(.*)$/)\<close>, giving the two groups of a match. The quantifiers
  are greedy and the expression is anchored at both ends: group 1 is the whole leading
  run of digits (a shorter one would be followed by a digit, not by whitespace), the
  whitespace run after it is taken whole, and group 2 is everything that is left, which
  must hold no line terminator since \<^verbatim>\<open>.\<close> matches none and \<^verbatim>\<open>$\<close> (no
  \<^verbatim>\<open>m\<close> flag) is the end of the string. Giving whitespace back to group 2 cannot
  remove a line terminator from what is left, so backtracking finds no other match.
\<close>

definition match_house_rest :: "string \<Rightarrow> (string \<times> string) option" where
  "match_house_rest a =
     (let digits = takeWhile is_digit a;
          after_digits = dropWhile is_digit a;
          spaces = takeWhile is_space after_digits;
          rest = dropWhile is_space after_digits
      in if digits \<noteq> [] \<and> spaces \<noteq> [] \<and> list_all (\<lambda>c. \<not> is_line_terminator c) rest
         then Some (digits, rest) else None)"

text \<open>
  \<^verbatim>\<open>function parseAddress(address)\<close>. On a string \<^verbatim>\<open>address || ''\<close> is
  \<^verbatim>\<open>address\<close>; a missing address behaves as the empty string.
\<close>

definition parseAddress :: "string \<Rightarrow> parsed" where
  "parseAddress address =
     (let a = trim address;
          m = match_house_rest a
      in \<lparr> house = (case m of Some (m1, m2) \<Rightarrow> m1 | None \<Rightarrow> []),
           street = (case m of Some (m1, m2) \<Rightarrow> m2 | None \<Rightarrow> a),
           tokens = filter (\<lambda>t. t \<noteq> []) (split_on CHR '' '' (norm a)) \<rparr>)"

section \<open>The row scorer\<close>

text \<open>
  The \<^verbatim>\<open>cells\<close> object the main loop builds for a row: \<^verbatim>\<open>pick\<close> gives a string
  for every cell (the empty string when the column is missing), and \<^verbatim>\<open>href\<close> may be
  \<^verbatim>\<open>null\<close>. The field \<^verbatim>\<open>zip\<close> is \<open>zip_cell\<close> here.
\<close>

record cells =
  name :: string
  email :: string
  phone :: string
  serviceLocation :: string
  city :: string
  zip_cell :: string
  href :: "string option"

text \<open>
  \<^verbatim>\<open>breakdown.k = v\<close> on a plain object: the keys keep their insertion order, and
  writing an existing key replaces its value in place. That is \<^const>\<open>AList.update\<close>.
\<close>

type_synonym breakdown = "(string \<times> int) list"

text \<open>
  \<^verbatim>\<open>function scoreRow(cells, rowText, parsed, cityHint, zipHint)\<close>, statement by
  statement; the pair is the returned object \<^verbatim>\<open>{ score, breakdown }\<close>. The hints are
  strings: the main loop defaults an absent hint to \<^verbatim>\<open>''\<close>, and the only thing the
  function does with a hint before using it is the truthiness test, which \<^verbatim>\<open>''\<close>
  and \<^verbatim>\<open>undefined\<close> both fail.
\<close>

definition scoreRow ::
  "cells \<Rightarrow> string \<Rightarrow> parsed \<Rightarrow> string \<Rightarrow> string \<Rightarrow> int \<times> breakdown" where
  "scoreRow cs rowText p cityHint zipHint =
     (let text = norm rowText;
          loc = serviceLocation cs;
          textLoc = norm loc;
          (score, breakdown) = (0, []);
          (score, breakdown) =
            (if house p \<noteq> [] \<and> (includes_str textLoc (house p) \<or> includes_str text (house p))
             then (score + 50, AList.update ''house'' 50 breakdown)
             else (score, breakdown));
          (score, breakdown) =
            (if zipHint \<noteq> []
             then (let z = norm zipHint
                   in if includes_str text z
                      then (score + 40, AList.update ''zip'' 40 breakdown)
                      else (score, breakdown))
             else (score, breakdown));
          (score, breakdown) =
            (if cityHint \<noteq> []
             then (let c = norm cityHint
                   in if includes_str text c \<or> includes_str textLoc c
                      then (score + 20, AList.update ''city'' 20 breakdown)
                      else (score, breakdown))
             else (score, breakdown));
          streetHits =
            fold (\<lambda>tok hits.
                    if tok \<noteq> [] \<and> (includes_str textLoc tok \<or> includes_str text tok)
                    then hits + 1 else hits)
                 (tokens p) (0 :: int);
          streetPts = streetHits * 5;
          (score, breakdown) = (score + streetPts, AList.update ''streetTokens'' streetPts breakdown);
          (score, breakdown) =
            (if email cs \<noteq> [] \<and> trim (email cs) \<noteq> []
             then (score + 3, AList.update ''email'' 3 breakdown)
             else (score, breakdown));
          (score, breakdown) =
            (if phone cs \<noteq> [] \<and> trim (phone cs) \<noteq> []
             then (score + 3, AList.update ''phone'' 3 breakdown)
             else (score, breakdown))
      in (score, breakdown))"

section \<open>Scoring the rows and choosing the best\<close>

text \<open>
  One element of \<^verbatim>\<open>rowsData\<close>, \<^verbatim>\<open>{ text, cells }\<close>; the field \<^verbatim>\<open>text\<close> is
  \<open>row_text\<close> here. A scored row is \<^verbatim>\<open>{ ...r, score, breakdown }\<close>.
\<close>

record row =
  row_text :: string
  cells :: cells

record scored_row = row +
  score :: int
  breakdown :: breakdown

text \<open>
  \<^verbatim>\<open>Array.prototype.sort(cmp)\<close>. ECMAScript (2019 and later; the Dockerfile's base
  image is Node 20) requires the sort to be stable, and for a consistent comparator that
  fixes the result:
  \<^verbatim>\<open>x\<close> stands before \<^verbatim>\<open>y\<close> when \<^verbatim>\<open>cmp(x, y) < 0\<close>, and elements that
  compare equal keep their order. Insertion from the right computes it.
\<close>

fun insert_cmp :: "('a \<Rightarrow> 'a \<Rightarrow> int) \<Rightarrow> 'a \<Rightarrow> 'a list \<Rightarrow> 'a list" where
  "insert_cmp cmp x [] = [x]"
| "insert_cmp cmp x (y # ys) =
     (if cmp x y \<le> 0 then x # y # ys else y # insert_cmp cmp x ys)"

definition js_sort :: "('a \<Rightarrow> 'a \<Rightarrow> int) \<Rightarrow> 'a list \<Rightarrow> 'a list" where
  "js_sort cmp xs = foldr (insert_cmp cmp) xs []"

text \<open>
  \<^verbatim>\<open>rowsData.map(r => { const { score, breakdown } = scoreRow(r.cells, r.text, parsed,
  city, zip); return { ...r, score, breakdown }; })\<close>
\<close>

definition score_row :: "parsed \<Rightarrow> string \<Rightarrow> string \<Rightarrow> row \<Rightarrow> scored_row" where
  "score_row p cityHint zipHint r =
     (case scoreRow (cells r) (row_text r) p cityHint zipHint of
        (s, b) \<Rightarrow> \<lparr> row_text = row_text r, cells = cells r, score = s, breakdown = b \<rparr>)"

definition score_rows :: "row list \<Rightarrow> parsed \<Rightarrow> string \<Rightarrow> string \<Rightarrow> scored_row list" where
  "score_rows rowsData p cityHint zipHint = map (score_row p cityHint zipHint) rowsData"

text \<open>\<^verbatim>\<open>const scored = rowsData.map(...).sort((a, b) => b.score - a.score);\<close>\<close>

definition scored :: "row list \<Rightarrow> parsed \<Rightarrow> string \<Rightarrow> string \<Rightarrow> scored_row list" where
  "scored rowsData p cityHint zipHint =
     js_sort (\<lambda>a b. score b - score a) (score_rows rowsData p cityHint zipHint)"

text \<open>
  The selection of the main loop for one task: with no rows
  (\<^verbatim>\<open>if (!rowsData.length) { ...; continue; }\<close>) nothing is selected, which is
  \<^const>\<open>None\<close>; otherwise \<^verbatim>\<open>const best = scored[0];\<close>.
\<close>

definition best :: "row list \<Rightarrow> parsed \<Rightarrow> string \<Rightarrow> string \<Rightarrow> scored_row option" where
  "best rowsData p cityHint zipHint =
     (if length rowsData = 0 then None
      else (case scored rowsData p cityHint zipHint of
              [] \<Rightarrow> None
            | b # _ \<Rightarrow> Some b))"

section \<open>Values that are not strings\<close>

text \<open>
  The definitions above take the address and the hints as strings. The source checks no
  types, though: a task is built from the Actor's JSON input
  (\<^verbatim>\<open>queries.map(q => ({ address: q.address || '', city: q.city || '', zip: q.zip || '' }))\<close>,
  or \<^verbatim>\<open>addresses.map(a => ({ address: a }))\<close>), and whatever stands there reaches
  \<^verbatim>\<open>parseAddress\<close> and \<^verbatim>\<open>scoreRow\<close>. The values: \<open>Num\<close> is a number (a
  fraction behaves here as any non-zero number), \<open>Object\<close> any array or object.
\<close>

datatype js_value = Undefined | Null | Bool bool | Num int | Str string | Object

datatype js_error = TypeError

text \<open>The truthiness of a value (\<^verbatim>\<open>ToBoolean\<close>).\<close>

definition truthy :: "js_value \<Rightarrow> bool" where
  "truthy v =
     (case v of
        Undefined \<Rightarrow> False
      | Null \<Rightarrow> False
      | Bool b \<Rightarrow> b
      | Num n \<Rightarrow> n \<noteq> 0
      | Str s \<Rightarrow> s \<noteq> []
      | Object \<Rightarrow> True)"

text \<open>\<^verbatim>\<open>v || ''\<close>.\<close>

definition or_empty :: "js_value \<Rightarrow> js_value" where
  "or_empty v = (if truthy v then v else Str [])"

text \<open>
  \<^verbatim>\<open>norm\<close> on any value: \<^verbatim>\<open>(s || '').toLowerCase()\<close> is a call of a method that
  only a string has, so on a truthy value that is not a string it throws a TypeError.
\<close>

definition norm_js :: "js_value \<Rightarrow> js_error + string" where
  "norm_js s = (case or_empty s of Str x \<Rightarrow> Inr (norm x) | _ \<Rightarrow> Inl TypeError)"

text \<open>
  \<^verbatim>\<open>parseAddress\<close> on any value: \<^verbatim>\<open>(address || '').trim()\<close> throws in the same
  way; from there on the function works on the string \<^verbatim>\<open>a\<close>.
\<close>

definition parseAddress_js :: "js_value \<Rightarrow> js_error + parsed" where
  "parseAddress_js address =
     (case or_empty address of Str x \<Rightarrow> Inr (parseAddress x) | _ \<Rightarrow> Inl TypeError)"

text \<open>
  \<^verbatim>\<open>scoreRow\<close> with hints of any value, statement by statement as
  \<^const>\<open>scoreRow\<close>: a hint is tested for truthiness and then handed to \<^verbatim>\<open>norm\<close>,
  and an exception ends the function.
\<close>

definition scoreRow_js ::
  "cells \<Rightarrow> string \<Rightarrow> parsed \<Rightarrow> js_value \<Rightarrow> js_value \<Rightarrow> js_error + int \<times> breakdown" where
  "scoreRow_js cs rowText p cityHint zipHint =
     (let text = norm rowText;
          loc = serviceLocation cs;
          textLoc = norm loc;
          (score, breakdown) = (0, []);
          (score, breakdown) =
            (if house p \<noteq> [] \<and> (includes_str textLoc (house p) \<or> includes_str text (house p))
             then (score + 50, AList.update ''house'' 50 breakdown)
             else (score, breakdown))
      in case (if truthy zipHint
               then (case norm_js zipHint of
                       Inl e \<Rightarrow> Inl e
                     | Inr z \<Rightarrow>
                         Inr (if includes_str text z
                              then (score + 40, AList.update ''zip'' 40 breakdown)
                              else (score, breakdown)))
               else Inr (score, breakdown)) of
           Inl e \<Rightarrow> Inl e
         | Inr (score, breakdown) \<Rightarrow>
      (case (if truthy cityHint
             then (case norm_js cityHint of
                     Inl e \<Rightarrow> Inl e
                   | Inr c \<Rightarrow>
                       Inr (if includes_str text c \<or> includes_str textLoc c
                            then (score + 20, AList.update ''city'' 20 breakdown)
                            else (score, breakdown)))
             else Inr (score, breakdown)) of
         Inl e \<Rightarrow> Inl e
       | Inr (score, breakdown) \<Rightarrow>
           Inr (let streetHits =
                      fold (\<lambda>tok hits.
                              if tok \<noteq> [] \<and> (includes_str textLoc tok \<or> includes_str text tok)
                              then hits + 1 else hits)
                           (tokens p) (0 :: int);
                    streetPts = streetHits * 5;
                    (score, breakdown) =
                      (score + streetPts, AList.update ''streetTokens'' streetPts breakdown);
                    (score, breakdown) =
                      (if email cs \<noteq> [] \<and> trim (email cs) \<noteq> []
                       then (score + 3, AList.update ''email'' 3 breakdown)
                       else (score, breakdown));
                    (score, breakdown) =
                      (if phone cs \<noteq> [] \<and> trim (phone cs) \<noteq> []
                       then (score + 3, AList.update ''phone'' 3 breakdown)
                       else (score, breakdown))
                in (score, breakdown))))"

text \<open>The callback of \<^verbatim>\<open>rowsData.map\<close>, and the map: the first exception ends it.\<close>

definition score_row_js :: "parsed \<Rightarrow> js_value \<Rightarrow> js_value \<Rightarrow> row \<Rightarrow> js_error + scored_row" where
  "score_row_js p cityHint zipHint r =
     (case scoreRow_js (cells r) (row_text r) p cityHint zipHint of
        Inl e \<Rightarrow> Inl e
      | Inr (s, b) \<Rightarrow> Inr \<lparr> row_text = row_text r, cells = cells r, score = s, breakdown = b \<rparr>)"

fun score_rows_js :: "row list \<Rightarrow> parsed \<Rightarrow> js_value \<Rightarrow> js_value \<Rightarrow> js_error + scored_row list" where
  "score_rows_js [] p cityHint zipHint = Inr []"
| "score_rows_js (r # rs) p cityHint zipHint =
     (case score_row_js p cityHint zipHint r of
        Inl e \<Rightarrow> Inl e
      | Inr x \<Rightarrow>
          (case score_rows_js rs p cityHint zipHint of
             Inl e \<Rightarrow> Inl e
           | Inr xs \<Rightarrow> Inr (x # xs)))"

text \<open>
  The selection of the main loop with hints of any value (after the defaults
  \<^verbatim>\<open>city = ''\<close>, \<^verbatim>\<open>zip = ''\<close> of the destructuring): with no rows nothing is
  scored.
\<close>

definition best_js :: "row list \<Rightarrow> parsed \<Rightarrow> js_value \<Rightarrow> js_value \<Rightarrow> js_error + scored_row option" where
  "best_js rowsData p cityHint zipHint =
     (if length rowsData = 0 then Inr None
      else (case score_rows_js rowsData p cityHint zipHint of
              Inl e \<Rightarrow> Inl e
            | Inr xs \<Rightarrow>
                Inr (case js_sort (\<lambda>a b. score b - score a) xs of
                       [] \<Rightarrow> None
                     | b # _ \<Rightarrow> Some b)))"

text \<open>
  The values on which no string method is called on anything but a string: the strings
  and the falsy values. \<open>string_of\<close> is the string \<^verbatim>\<open>v || ''\<close> is then.
\<close>

definition string_or_falsy :: "js_value \<Rightarrow> bool" where
  "string_or_falsy v = (case v of Str s \<Rightarrow> True | _ \<Rightarrow> \<not> truthy v)"

definition string_of :: "js_value \<Rightarrow> string" where
  "string_of v = (case v of Str s \<Rightarrow> s | _ \<Rightarrow> [])"

section \<open>The signals as the specification words them\<close>

text \<open>
  Section 4.2 of the specification gives a table of six signals, a condition and the
  points for each. The definitions below follow that table, not the code; every signal
  reads only the arguments its own row of the table names.
\<close>

definition house_match :: "parsed \<Rightarrow> cells \<Rightarrow> string \<Rightarrow> bool" where
  "house_match p cs rowText =
     (house p \<noteq> [] \<and>
      (includes_str (norm (serviceLocation cs)) (house p) \<or> includes_str (norm rowText) (house p)))"

definition zip_match :: "string \<Rightarrow> string \<Rightarrow> bool" where
  "zip_match zipHint rowText = (zipHint \<noteq> [] \<and> includes_str (norm rowText) (norm zipHint))"

definition city_match :: "string \<Rightarrow> cells \<Rightarrow> string \<Rightarrow> bool" where
  "city_match cityHint cs rowText =
     (cityHint \<noteq> [] \<and>
      (includes_str (norm rowText) (norm cityHint) \<or>
       includes_str (norm (serviceLocation cs)) (norm cityHint)))"

definition token_match :: "string \<Rightarrow> cells \<Rightarrow> string \<Rightarrow> bool" where
  "token_match tok cs rowText =
     (includes_str (norm (serviceLocation cs)) tok \<or> includes_str (norm rowText) tok)"

definition email_present :: "cells \<Rightarrow> bool" where
  "email_present cs = (trim (email cs) \<noteq> [])"

definition phone_present :: "cells \<Rightarrow> bool" where
  "phone_present cs = (trim (phone cs) \<noteq> [])"

definition house_points :: "parsed \<Rightarrow> cells \<Rightarrow> string \<Rightarrow> int" where
  "house_points p cs rowText = (if house_match p cs rowText then 50 else 0)"

definition zip_points :: "string \<Rightarrow> string \<Rightarrow> int" where
  "zip_points zipHint rowText = (if zip_match zipHint rowText then 40 else 0)"

definition city_points :: "string \<Rightarrow> cells \<Rightarrow> string \<Rightarrow> int" where
  "city_points cityHint cs rowText = (if city_match cityHint cs rowText then 20 else 0)"

definition street_points :: "parsed \<Rightarrow> cells \<Rightarrow> string \<Rightarrow> int" where
  "street_points p cs rowText =
     5 * int (length (filter (\<lambda>tok. token_match tok cs rowText) (tokens p)))"

definition email_points :: "cells \<Rightarrow> int" where
  "email_points cs = (if email_present cs then 3 else 0)"

definition phone_points :: "cells \<Rightarrow> int" where
  "phone_points cs = (if phone_present cs then 3 else 0)"

section \<open>Auxiliary notions for the proofs\<close>

text \<open>
  The number of tokens the loop of \<^const>\<open>scoreRow\<close> counts: the code tests
  \<^verbatim>\<open>tok && ...\<close>, so an empty token never counts.
\<close>

definition street_hits :: "parsed \<Rightarrow> cells \<Rightarrow> string \<Rightarrow> int" where
  "street_hits p cs rowText =
     int (length (filter (\<lambda>tok. tok \<noteq> [] \<and> token_match tok cs rowText) (tokens p)))"

text \<open>The row a scored row was made from: the \<^verbatim>\<open>...r\<close> of the object spread.\<close>

definition row_of :: "scored_row \<Rightarrow> row" where
  "row_of s = \<lparr> row_text = row_text s, cells = cells s \<rparr>"

text \<open>
  The pieces of a string between separator characters, and its words: the non-empty
  pieces. The tokens of an address turn out to be the words of the lowercased address.
\<close>

fun pieces :: "(char \<Rightarrow> bool) \<Rightarrow> string \<Rightarrow> string list" where
  "pieces P [] = [[]]"
| "pieces P (c # cs) =
     (if P c then [] # pieces P cs
      else (case pieces P cs of
              [] \<Rightarrow> [[c]]
            | w # ws \<Rightarrow> (c # w) # ws))"

definition words_by :: "(char \<Rightarrow> bool) \<Rightarrow> string \<Rightarrow> string list" where
  "words_by P s = filter (\<lambda>w. w \<noteq> []) (pieces P s)"

text \<open>
  Two strings that agree character by character up to case, and differ otherwise only
  in their whitespace runs: read from the left, a character of one stands against a
  character of the other with the same \<^verbatim>\<open>toLowerCase\<close>, except that where one has a
  whitespace character the other has one too, and a whitespace character may be followed
  by further ones on either side. Both the length of a run and the whitespace characters
  in it may differ; a run never appears or disappears.
\<close>

inductive case_space_variant :: "string \<Rightarrow> string \<Rightarrow> bool" where
  Done: "case_space_variant [] []"
| Letter: "toLowerCase_char c = toLowerCase_char d \<Longrightarrow> case_space_variant s t \<Longrightarrow>
     case_space_variant (c # s) (d # t)"
| Space: "is_space c \<Longrightarrow> is_space d \<Longrightarrow> case_space_variant s t \<Longrightarrow>
     case_space_variant (c # s) (d # t)"
| LongerL: "is_space c \<Longrightarrow> is_space c' \<Longrightarrow> case_space_variant (c # s) t \<Longrightarrow>
     case_space_variant (c # c' # s) t"
| LongerR: "is_space d \<Longrightarrow> is_space d' \<Longrightarrow> case_space_variant s (d # t) \<Longrightarrow>
     case_space_variant s (d # d' # t)"

text \<open>
  \<^verbatim>\<open>String.prototype.toUpperCase\<close> on the model's range, as the code units of the
  result: a-z and U+00E0 .. U+00FE (U+00F7, the division sign, apart) move 32 down,
  U+00DF (sharp s) becomes SS, U+00FF becomes U+0178 and U+00B5 (the micro sign) becomes
  U+039C. The source does not call it; it serves to say that two strings differ only in
  letter case: they are equal after \<^verbatim>\<open>toUpperCase\<close>.
\<close>

definition toUpperCase_char :: "char \<Rightarrow> nat list" where
  "toUpperCase_char c =
     (let n = (of_char c :: nat)
      in if (97 \<le> n \<and> n \<le> 122) \<or> (224 \<le> n \<and> n \<le> 254 \<and> n \<noteq> 247) then [n - 32]
         else if n = 223 then [83, 83]
         else if n = 255 then [376]
         else if n = 181 then [924]
         else [n])"

definition toUpperCase :: "string \<Rightarrow> nat list" where
  "toUpperCase s = concat (map toUpperCase_char s)"

subsection \<open>The rows of the specification's end-to-end example\<close>

definition example_row0 :: row where
  "example_row0 =
     \<lparr> row_text = ''... 1462 22nd St, Denver ... john@x.com 555-1234'',
       cells = \<lparr> name = '''', email = ''john@x.com'', phone = ''555-1234'',
                 serviceLocation = ''1462 22nd St, Denver'', city = '''', zip_cell = '''',
                 href = None \<rparr> \<rparr>"

definition example_row1 :: row where
  "example_row1 =
     \<lparr> row_text = ''99 Oak Ave'',
       cells = \<lparr> name = '''', email = '''', phone = '''', serviceLocation = ''99 Oak Ave'',
                 city = '''', zip_cell = '''', href = None \<rparr> \<rparr>"

text \<open>Two more rows: one that ties with row 0, one that scores nothing.\<close>

definition example_row2 :: row where
  "example_row2 =
     \<lparr> row_text = ''Jane 1462 22nd Ave jane@x.com 555-9876'',
       cells = \<lparr> name = ''Jane'', email = ''jane@x.com'', phone = ''555-9876'',
                 serviceLocation = ''1462 22nd Ave'', city = '''', zip_cell = '''',
                 href = None \<rparr> \<rparr>"

definition example_row3 :: row where
  "example_row3 =
     \<lparr> row_text = ''7 Elm Rd'',
       cells = \<lparr> name = '''', email = '''', phone = '''', serviceLocation = ''7 Elm Rd'',
                 city = '''', zip_cell = '''', href = None \<rparr> \<rparr>"

text \<open>Row lists for the examples: a tie at the top, and rows that all score nothing.\<close>

definition tie_rows :: "row list" where
  "tie_rows = [example_row1, example_row0, example_row2]"

definition zero_rows :: "row list" where
  "zero_rows = [example_row1, example_row3]"

text \<open>An address of two lines: the house number and street, a line feed, the city.\<close>

definition multiline_address :: string where
  "multiline_address = ''1462 22nd St'' @ [CHR 0x0A] @ ''Denver''"

text \<open>Two spellings of one street, in capitals and with the sharp s (U+00DF).\<close>

definition strasse_upper :: string where
  "strasse_upper = ''HAUPTSTRASSE 5''"

definition strasse_eszett :: string where
  "strasse_eszett = ''Hauptstra'' @ [CHR 0xDF] @ ''e 5''"

section \<open>Characters and strings\<close>

lemma of_char_lt_256: "(of_char c :: nat) < 256"
  by (cases c) (simp add: of_char_def)

lemma is_space_toLowerCase_char [simp]: "is_space (toLowerCase_char c) = is_space c"
  using of_char_lt_256 [of c]
  by (auto simp: is_space_def toLowerCase_char_def Let_def)

lemma toLowerCase_char_space: "is_space c \<Longrightarrow> toLowerCase_char c = c"
  by (auto simp: is_space_def toLowerCase_char_def Let_def)

lemma is_space_SPACE [simp]: "is_space CHR '' ''"
  by (simp add: is_space_def)

lemma not_digit_space: "is_space c \<Longrightarrow> \<not> is_digit c"
  by (auto simp: is_space_def is_digit_def Let_def)

lemma trim_Nil [simp]: "trim [] = []"
  by (simp add: trim_def)

lemma includes_str_Nil [simp]: "includes_str hay []"
  by (cases hay) simp_all

text \<open>\<^const>\<open>includes_str\<close> is the substring test.\<close>

lemma includes_str_iff: "includes_str hay needle \<longleftrightarrow> (\<exists>ps ss. hay = ps @ needle @ ss)"
proof (induction hay)
  case Nil
  then show ?case by auto
next
  case (Cons c cs)
  show ?case
  proof
    assume "includes_str (c # cs) needle"
    then consider "prefix needle (c # cs)" | "includes_str cs needle" by auto
    then show "\<exists>ps ss. c # cs = ps @ needle @ ss"
    proof cases
      case 1
      then obtain ss where "c # cs = needle @ ss" by (auto simp: prefix_def)
      then have "c # cs = [] @ needle @ ss" by simp
      then show ?thesis by blast
    next
      case 2
      with Cons.IH obtain ps ss where "cs = ps @ needle @ ss" by blast
      then have "c # cs = (c # ps) @ needle @ ss" by simp
      then show ?thesis by blast
    qed
  next
    assume "\<exists>ps ss. c # cs = ps @ needle @ ss"
    then obtain ps ss where eq: "c # cs = ps @ needle @ ss" by blast
    show "includes_str (c # cs) needle"
    proof (cases ps)
      case Nil
      with eq have "prefix needle (c # cs)" by (simp add: prefix_def)
      then show ?thesis by simp
    next
      case (Cons q qs)
      with eq have "cs = qs @ needle @ ss" by simp
      with Cons.IH have "includes_str cs needle" by blast
      then show ?thesis by simp
    qed
  qed
qed

section \<open>The tokens of an address\<close>

lemma split_on_pieces: "split_on d s = pieces (\<lambda>c. c = d) s"
  by (induction s) simp_all

lemma pieces_not_Nil [simp]: "pieces P s \<noteq> []"
  by (induction s) (auto split: list.splits)

lemma pieces_Cons_sep: "P c \<Longrightarrow> pieces P (c # s) = [] # pieces P s"
  by simp

lemma pieces_Cons_other:
  "\<not> P c \<Longrightarrow> pieces P (c # s) = (c # hd (pieces P s)) # tl (pieces P s)"
  by (cases "pieces P s") simp_all

lemma words_by_hd_tl:
  "words_by P s =
     (if hd (pieces P s) = [] then filter (\<lambda>w. w \<noteq> []) (tl (pieces P s))
      else hd (pieces P s) # filter (\<lambda>w. w \<noteq> []) (tl (pieces P s)))"
  by (cases "pieces P s") (simp_all add: words_by_def)

lemma words_by_Cons_sep: "P c \<Longrightarrow> words_by P (c # s) = words_by P s"
  by (simp add: words_by_def)

lemma words_by_dropWhile: "words_by P (dropWhile P s) = words_by P s"
  by (induction s) (simp_all add: words_by_Cons_sep)

lemma pieces_snoc_sep: "P c \<Longrightarrow> pieces P (s @ [c]) = pieces P s @ [[]]"
  by (induction s) (auto split: list.splits)

lemma words_by_snoc_sep: "P c \<Longrightarrow> words_by P (s @ [c]) = words_by P s"
  by (simp add: words_by_def pieces_snoc_sep)

lemma words_by_rev_dropWhile: "words_by P (rev (dropWhile P r)) = words_by P (rev r)"
  by (induction r) (simp_all add: words_by_snoc_sep)

lemma words_by_strip:
  "words_by P (rev (dropWhile P (rev (dropWhile P s)))) = words_by P s"
  by (simp add: words_by_rev_dropWhile words_by_dropWhile)

lemma words_by_trim: "words_by is_space (trim s) = words_by is_space s"
  by (simp add: trim_def words_by_strip)

lemma collapse_spaces_space:
  "c \<in> set (collapse_spaces u) \<Longrightarrow> is_space c \<Longrightarrow> c = CHR '' ''"
proof (induction u rule: collapse_spaces.induct)
  case 1
  then show ?case by simp
next
  case (2 x xs)
  then show ?case by (auto split: if_splits)
qed

lemma trim_collapse_spaces:
  "trim (collapse_spaces u) =
     rev (dropWhile (\<lambda>c. c = CHR '' '') (rev (dropWhile (\<lambda>c. c = CHR '' '') (collapse_spaces u))))"
proof -
  have eq: "is_space c = (c = CHR '' '')" if "c \<in> set (collapse_spaces u)" for c
    using that collapse_spaces_space [of c u] by auto
  have inner: "dropWhile is_space (collapse_spaces u) = dropWhile (\<lambda>c. c = CHR '' '') (collapse_spaces u)"
    by (rule dropWhile_cong) (simp_all add: eq)
  have "dropWhile is_space (rev (dropWhile (\<lambda>c. c = CHR '' '') (collapse_spaces u))) =
        dropWhile (\<lambda>c. c = CHR '' '') (rev (dropWhile (\<lambda>c. c = CHR '' '') (collapse_spaces u)))"
  proof (rule dropWhile_cong)
    fix c assume "c \<in> set (rev (dropWhile (\<lambda>c. c = CHR '' '') (collapse_spaces u)))"
    then have "c \<in> set (collapse_spaces u)" by (auto dest: set_dropWhileD)
    then show "is_space c = (c = CHR '' '')" by (rule eq)
  qed simp
  with inner show ?thesis by (simp add: trim_def)
qed

lemma pieces_collapse_spaces:
  "hd (pieces (\<lambda>c. c = CHR '' '') (collapse_spaces u)) = hd (pieces is_space u) \<and>
   filter (\<lambda>w. w \<noteq> []) (tl (pieces (\<lambda>c. c = CHR '' '') (collapse_spaces u))) =
   filter (\<lambda>w. w \<noteq> []) (tl (pieces is_space u))"
proof (induction u rule: collapse_spaces.induct)
  case 1
  show ?case by simp
next
  case (2 x xs)
  show ?case
  proof (cases "is_space x")
    case True
    with "2.IH"(1) have
      "words_by (\<lambda>c. c = CHR '' '') (collapse_spaces (dropWhile is_space xs)) =
       words_by is_space (dropWhile is_space xs)"
      by (simp add: words_by_hd_tl)
    then have "words_by (\<lambda>c. c = CHR '' '') (collapse_spaces (dropWhile is_space xs)) =
       words_by is_space xs"
      by (simp add: words_by_dropWhile)
    with True show ?thesis by (simp add: words_by_def)
  next
    case False
    then have ne: "x \<noteq> CHR '' ''" by auto
    from False "2.IH"(2) have ih:
      "hd (pieces (\<lambda>c. c = CHR '' '') (collapse_spaces xs)) = hd (pieces is_space xs)"
      "filter (\<lambda>w. w \<noteq> []) (tl (pieces (\<lambda>c. c = CHR '' '') (collapse_spaces xs))) =
       filter (\<lambda>w. w \<noteq> []) (tl (pieces is_space xs))"
      by simp_all
    have "pieces (\<lambda>c. c = CHR '' '') (collapse_spaces (x # xs)) =
          (x # hd (pieces (\<lambda>c. c = CHR '' '') (collapse_spaces xs))) #
          tl (pieces (\<lambda>c. c = CHR '' '') (collapse_spaces xs))"
      using False ne by (simp add: pieces_Cons_other del: pieces.simps)
    moreover have "pieces is_space (x # xs) = (x # hd (pieces is_space xs)) # tl (pieces is_space xs)"
      using False by (rule pieces_Cons_other)
    ultimately show ?thesis using ih by simp
  qed
qed

lemma words_by_collapse_spaces:
  "words_by (\<lambda>c. c = CHR '' '') (collapse_spaces u) = words_by is_space u"
  using pieces_collapse_spaces [of u] by (simp add: words_by_hd_tl)

lemma toLowerCase_trim: "toLowerCase (trim s) = trim (toLowerCase s)"
proof -
  have comp: "is_space \<circ> toLowerCase_char = is_space" by (rule ext) simp
  show ?thesis
    by (simp add: toLowerCase_def trim_def dropWhile_map rev_map comp)
qed

lemma tokens_parseAddress:
  "tokens (parseAddress address) = words_by is_space (toLowerCase address)"
proof -
  have "tokens (parseAddress address) =
        words_by (\<lambda>c. c = CHR '' '') (trim (collapse_spaces (toLowerCase (trim address))))"
    by (simp add: parseAddress_def Let_def norm_def split_on_pieces words_by_def)
  also have "\<dots> = words_by (\<lambda>c. c = CHR '' '') (collapse_spaces (toLowerCase (trim address)))"
    by (simp only: trim_collapse_spaces words_by_strip)
  also have "\<dots> = words_by is_space (trim (toLowerCase address))"
    by (simp add: words_by_collapse_spaces toLowerCase_trim)
  also have "\<dots> = words_by is_space (toLowerCase address)"
    by (rule words_by_trim)
  finally show ?thesis .
qed

lemma variant_pieces:
  "case_space_variant s t \<Longrightarrow>
   hd (pieces is_space (toLowerCase s)) = hd (pieces is_space (toLowerCase t)) \<and>
   filter (\<lambda>w. w \<noteq> []) (tl (pieces is_space (toLowerCase s))) =
   filter (\<lambda>w. w \<noteq> []) (tl (pieces is_space (toLowerCase t)))"
proof (induction rule: case_space_variant.induct)
  case Done
  show ?case by simp
next
  case (Letter c d s t)
  then have w: "words_by is_space (toLowerCase s) = words_by is_space (toLowerCase t)"
    by (simp add: words_by_hd_tl)
  show ?case
  proof (cases "is_space c")
    case True
    moreover from True Letter.hyps(1) have "is_space d"
      by (metis is_space_toLowerCase_char)
    ultimately show ?thesis using w by (simp add: toLowerCase_def words_by_def)
  next
    case False
    moreover from False Letter.hyps(1) have "\<not> is_space d"
      by (metis is_space_toLowerCase_char)
    ultimately show ?thesis
      using Letter.IH Letter.hyps(1)
      by (simp add: toLowerCase_def pieces_Cons_other del: pieces.simps)
  qed
next
  case (Space c d s t)
  then have "words_by is_space (toLowerCase s) = words_by is_space (toLowerCase t)"
    by (simp add: words_by_hd_tl)
  with Space.hyps show ?case by (simp add: toLowerCase_def words_by_def)
next
  case (LongerL c c' s t)
  then show ?case by (simp add: toLowerCase_def)
next
  case (LongerR d d' s t)
  then show ?case by (simp add: toLowerCase_def)
qed

section \<open>The sort and the selection\<close>

lemma set_insert_cmp [simp]: "set (insert_cmp cmp x ys) = insert x (set ys)"
  by (induction ys) auto

lemma length_insert_cmp [simp]: "length (insert_cmp cmp x ys) = Suc (length ys)"
  by (induction ys) auto

lemma js_sort_Nil [simp]: "js_sort cmp [] = []"
  by (simp add: js_sort_def)

lemma js_sort_Cons: "js_sort cmp (x # xs) = insert_cmp cmp x (js_sort cmp xs)"
  by (simp add: js_sort_def)

lemma set_js_sort [simp]: "set (js_sort cmp xs) = set xs"
  by (induction xs) (simp_all add: js_sort_Cons)

lemma length_js_sort [simp]: "length (js_sort cmp xs) = length xs"
  by (induction xs) (simp_all add: js_sort_Cons)

lemma js_sort_eq_Nil [simp]: "js_sort cmp xs = [] \<longleftrightarrow> xs = []"
  using length_js_sort [of cmp xs] by (metis length_0_conv)

lemma hd_insert_cmp:
  "hd (insert_cmp cmp x ys) = (if ys = [] \<or> cmp x (hd ys) \<le> 0 then x else hd ys)"
  by (cases ys) simp_all

lemma filter_insert_cmp_tie:
  "f x = k \<Longrightarrow>
   filter (\<lambda>y. f y = k) (insert_cmp (\<lambda>a b. f b - f a) x ys) = x # filter (\<lambda>y. f y = k) ys"
  for f :: "'a \<Rightarrow> int"
  by (induction ys) auto

lemma filter_insert_cmp_other:
  "f x \<noteq> k \<Longrightarrow>
   filter (\<lambda>y. f y = k) (insert_cmp (\<lambda>a b. f b - f a) x ys) = filter (\<lambda>y. f y = k) ys"
  for f :: "'a \<Rightarrow> int"
  by (induction ys) auto

lemma js_sort_stable:
  "filter (\<lambda>y. f y = k) (js_sort (\<lambda>a b. f b - f a) xs) = filter (\<lambda>y. f y = k) xs"
  for f :: "'a \<Rightarrow> int"
proof (induction xs)
  case Nil
  show ?case by simp
next
  case (Cons x xs)
  show ?case
  proof (cases "f x = k")
    case True
    then show ?thesis
      using Cons.IH by (simp add: js_sort_Cons filter_insert_cmp_tie)
  next
    case False
    then show ?thesis
      using Cons.IH by (simp add: js_sort_Cons filter_insert_cmp_other)
  qed
qed

lemma sorted_insert_cmp:
  "sorted_wrt (\<lambda>a b. f b \<le> f a) ys \<Longrightarrow>
   sorted_wrt (\<lambda>a b. f b \<le> f a) (insert_cmp (\<lambda>a b. f b - f a) x ys)"
  for f :: "'a \<Rightarrow> int"
  by (induction ys) auto

lemma js_sort_descending: "sorted_wrt (\<lambda>a b. f b \<le> f a) (js_sort (\<lambda>a b. f b - f a) xs)"
  for f :: "'a \<Rightarrow> int"
  by (induction xs) (simp_all add: js_sort_Cons sorted_insert_cmp)

lemma insert_cmp_map:
  "insert_cmp cmp (g x) (map g ys) = map g (insert_cmp (\<lambda>a b. cmp (g a) (g b)) x ys)"
  by (induction ys) simp_all

lemma js_sort_map: "js_sort cmp (map g xs) = map g (js_sort (\<lambda>a b. cmp (g a) (g b)) xs)"
  by (induction xs) (simp_all add: js_sort_Cons insert_cmp_map)

lemma hd_js_sort_Cons:
  "hd (js_sort (\<lambda>a b. f b - f a) (x # xs)) =
     (if xs = [] \<or> f (hd (js_sort (\<lambda>a b. f b - f a) xs)) \<le> f x then x
      else hd (js_sort (\<lambda>a b. f b - f a) xs))"
  for f :: "'a \<Rightarrow> int"
  by (simp add: js_sort_Cons hd_insert_cmp)

lemma hd_js_sort_first_max:
  "xs \<noteq> [] \<Longrightarrow>
   \<exists>k < length xs. hd (js_sort (\<lambda>a b. f b - f a) xs) = xs ! k \<and>
      (\<forall>j < length xs. f (xs ! j) \<le> f (xs ! k)) \<and> (\<forall>j < k. f (xs ! j) < f (xs ! k))"
  for f :: "'a \<Rightarrow> int"
proof (induction xs)
  case Nil
  then show ?case by simp
next
  case (Cons x xs)
  let ?h = "hd (js_sort (\<lambda>a b. f b - f a) xs)"
  show ?case
  proof (cases "xs = []")
    case True
    then show ?thesis by (simp add: js_sort_Cons)
  next
    case False
    with Cons.IH obtain k where k: "k < length xs" "?h = xs ! k"
      "\<forall>j < length xs. f (xs ! j) \<le> f (xs ! k)" "\<forall>j < k. f (xs ! j) < f (xs ! k)"
      by blast
    show ?thesis
    proof (cases "f ?h \<le> f x")
      case True
      have "hd (js_sort (\<lambda>a b. f b - f a) (x # xs)) = (x # xs) ! 0"
        using True by (simp add: hd_js_sort_Cons)
      moreover have "\<forall>j < length (x # xs). f ((x # xs) ! j) \<le> f ((x # xs) ! 0)"
      proof (intro allI impI)
        fix j assume "j < length (x # xs)"
        then show "f ((x # xs) ! j) \<le> f ((x # xs) ! 0)"
          using True k by (cases j) (auto intro: order_trans)
      qed
      ultimately show ?thesis by (intro exI [of _ 0]) simp
    next
      case gt: False
      have "hd (js_sort (\<lambda>a b. f b - f a) (x # xs)) = (x # xs) ! Suc k"
        using gt False k by (simp add: hd_js_sort_Cons)
      moreover have "\<forall>j < length (x # xs). f ((x # xs) ! j) \<le> f ((x # xs) ! Suc k)"
      proof (intro allI impI)
        fix j assume "j < length (x # xs)"
        then show "f ((x # xs) ! j) \<le> f ((x # xs) ! Suc k)"
          using gt k by (cases j) auto
      qed
      moreover have "\<forall>j < Suc k. f ((x # xs) ! j) < f ((x # xs) ! Suc k)"
      proof (intro allI impI)
        fix j assume "j < Suc k"
        then show "f ((x # xs) ! j) < f ((x # xs) ! Suc k)"
          using gt k by (cases j) auto
      qed
      ultimately show ?thesis using k(1) by (intro exI [of _ "Suc k"]) simp
    qed
  qed
qed

lemma best_eq:
  "best rows p c z = (if rows = [] then None else Some (hd (scored rows p c z)))"
  by (cases "scored rows p c z") (auto simp: best_def scored_def score_rows_def)

section \<open>The score and the breakdown in closed form\<close>

lemma fold_hits:
  "fold (\<lambda>tok hits. if Q tok then hits + 1 else hits) xs (n :: int) = n + int (length (filter Q xs))"
  by (induction xs arbitrary: n) simp_all

lemma scoreRow_score:
  "fst (scoreRow cs rowText p c z) =
     (if house_match p cs rowText then 50 else 0) + (if zip_match z rowText then 40 else 0) +
     (if city_match c cs rowText then 20 else 0) + 5 * street_hits p cs rowText +
     (if email_present cs then 3 else 0) + (if phone_present cs then 3 else 0)"
  by (simp add: scoreRow_def Let_def fold_hits house_match_def zip_match_def city_match_def
      token_match_def email_present_def phone_present_def street_hits_def)

lemma scoreRow_breakdown:
  "snd (scoreRow cs rowText p c z) =
     (if house_match p cs rowText then [(''house'', 50)] else []) @
     (if zip_match z rowText then [(''zip'', 40)] else []) @
     (if city_match c cs rowText then [(''city'', 20)] else []) @
     [(''streetTokens'', 5 * street_hits p cs rowText)] @
     (if email_present cs then [(''email'', 3)] else []) @
     (if phone_present cs then [(''phone'', 3)] else [])"
  by (simp add: scoreRow_def Let_def fold_hits house_match_def zip_match_def city_match_def
      token_match_def email_present_def phone_present_def street_hits_def)

section \<open>Facts about the scorer and the selection\<close>

lemma tokens_parseAddress_nonempty: "[] \<notin> set (tokens (parseAddress a))"
  by (simp add: parseAddress_def Let_def)

lemma street_hits_parseAddress:
  "5 * street_hits (parseAddress a) cs rowText = street_points (parseAddress a) cs rowText"
proof -
  have "filter (\<lambda>tok. tok \<noteq> [] \<and> token_match tok cs rowText) (tokens (parseAddress a)) =
        filter (\<lambda>tok. token_match tok cs rowText) (tokens (parseAddress a))"
    using tokens_parseAddress_nonempty [of a] by (intro filter_cong) auto
  then show ?thesis by (simp add: street_hits_def street_points_def)
qed

lemma street_hits_nonneg: "0 \<le> street_hits p cs rowText"
  by (simp add: street_hits_def)

lemma sum_breakdown:
  "sum_list (map snd (snd (scoreRow cs rowText p c z))) = fst (scoreRow cs rowText p c z)"
  by (simp add: scoreRow_score scoreRow_breakdown)

lemma score_score_row [simp]:
  "score (score_row p c z r) = fst (scoreRow (cells r) (row_text r) p c z)"
  by (simp add: score_row_def split: prod.split)

lemma row_of_score_row [simp]: "row_of (score_row p c z r) = r"
  by (simp add: score_row_def row_of_def split: prod.split)

lemma scored_map:
  "scored rows p c z =
     map (score_row p c z)
       (js_sort (\<lambda>a b. fst (scoreRow (cells b) (row_text b) p c z) -
                        fst (scoreRow (cells a) (row_text a) p c z)) rows)"
  by (simp add: scored_def score_rows_def js_sort_map)

lemma norm_blank:
  assumes "z \<noteq> []" and "list_all is_space z"
  shows "norm z = []"
proof -
  from assms obtain c cs where z: "z = c # cs" and c: "is_space c" and cs: "\<forall>x \<in> set cs. is_space x"
    by (cases z) (auto simp: list_all_iff)
  have "toLowerCase z = z"
    using assms(2) by (simp add: toLowerCase_def list_all_iff toLowerCase_char_space map_idI)
  moreover from cs have dw: "dropWhile is_space cs = []" by simp
  moreover have "collapse_spaces (c # cs) = '' ''" by (simp add: c dw)
  ultimately have "collapse_spaces (toLowerCase z) = '' ''" by (simp only: z)
  then show ?thesis by (simp add: norm_def trim_def)
qed

section \<open>The regular expression of the parser\<close>

text \<open>
  \<^const>\<open>match_house_rest\<close> matches exactly the strings of the form digits, whitespace,
  rest without line terminator, and its groups are the digits and the rest after all the
  whitespace.
\<close>

lemma match_house_rest_Some:
  assumes "match_house_rest a = Some (d, r)"
  shows "d \<noteq> [] \<and> list_all is_digit d \<and>
         (\<exists>w. w \<noteq> [] \<and> list_all is_space w \<and> a = d @ w @ r) \<and>
         list_all (\<lambda>c. \<not> is_line_terminator c) r"
proof -
  let ?w = "takeWhile is_space (dropWhile is_digit a)"
  from assms have d: "d = takeWhile is_digit a" and r: "r = dropWhile is_space (dropWhile is_digit a)"
    and ne: "d \<noteq> []" "?w \<noteq> []" and lt: "list_all (\<lambda>c. \<not> is_line_terminator c) r"
    by (auto simp: match_house_rest_def Let_def split: if_splits)
  have "list_all is_digit d" unfolding d list_all_iff by (auto dest: set_takeWhileD)
  moreover have "list_all is_space ?w" unfolding list_all_iff by (auto dest: set_takeWhileD)
  moreover have "a = d @ ?w @ r" unfolding d r by simp
  ultimately show ?thesis using ne lt by blast
qed

lemma match_house_rest_complete:
  assumes "a = d @ w @ r" and "d \<noteq> []" and "list_all is_digit d"
    and "w \<noteq> []" and "list_all is_space w" and "list_all (\<lambda>c. \<not> is_line_terminator c) r"
  shows "match_house_rest a = Some (d, dropWhile is_space r)"
proof -
  from assms(4,5) obtain x xs where w: "w = x # xs" and x: "is_space x"
    by (cases w) auto
  from x have nd: "\<not> is_digit x" by (rule not_digit_space)
  have dig: "\<forall>c \<in> set d. is_digit c" using assms(3) by (simp add: list_all_iff)
  have sp: "\<forall>c \<in> set w. is_space c" using assms(5) by (simp add: list_all_iff)
  have t1: "takeWhile is_digit a = d"
    unfolding assms(1) using dig nd w by (simp add: takeWhile_append2)
  have d1: "dropWhile is_digit a = w @ r"
    unfolding assms(1) using dig nd w by (simp add: dropWhile_append2)
  have t2: "takeWhile is_space (w @ r) = w @ takeWhile is_space r"
    using sp by (simp add: takeWhile_append2)
  have d2: "dropWhile is_space (w @ r) = dropWhile is_space r"
    using sp by (simp add: dropWhile_append2)
  have "list_all (\<lambda>c. \<not> is_line_terminator c) (dropWhile is_space r)"
    using assms(6) unfolding list_all_iff by (auto dest: set_dropWhileD)
  then show ?thesis
    using assms(2,4) by (simp add: match_house_rest_def Let_def t1 d1 t2 d2)
qed

lemma parseAddress_house_single_line:
  assumes "trim address = d @ w @ r" and "d \<noteq> []" and "list_all is_digit d"
    and "w \<noteq> []" and "list_all is_space w" and "list_all (\<lambda>c. \<not> is_line_terminator c) r"
  shows "house (parseAddress address) = d \<and> street (parseAddress address) = dropWhile is_space r"
  using match_house_rest_complete [OF assms] by (simp add: parseAddress_def Let_def)

lemma parseAddress_no_leading_digits:
  assumes "takeWhile is_digit (trim address) = []"
  shows "house (parseAddress address) = [] \<and> street (parseAddress address) = trim address"
  using assms by (simp add: parseAddress_def match_house_rest_def Let_def)

section \<open>Strings and falsy values raise no error\<close>

lemma or_empty_string_or_falsy:
  "string_or_falsy v \<Longrightarrow> or_empty v = Str (string_of v)"
  by (cases v) (auto simp: string_or_falsy_def or_empty_def string_of_def truthy_def)

lemma truthy_string_of:
  "string_or_falsy v \<Longrightarrow> truthy v = (string_of v \<noteq> [])"
  by (cases v) (auto simp: string_or_falsy_def string_of_def truthy_def)

lemma norm_js_ok: "string_or_falsy v \<Longrightarrow> norm_js v = Inr (norm (string_of v))"
  by (simp add: norm_js_def or_empty_string_or_falsy)

lemma parseAddress_js_ok:
  "string_or_falsy v \<Longrightarrow> parseAddress_js v = Inr (parseAddress (string_of v))"
  by (simp add: parseAddress_js_def or_empty_string_or_falsy)

lemma parseAddress_js_throws:
  "\<not> string_or_falsy v \<Longrightarrow> parseAddress_js v = Inl TypeError"
  by (cases v) (auto simp: parseAddress_js_def or_empty_def string_or_falsy_def truthy_def)

lemma scoreRow_js_ok:
  assumes "string_or_falsy c" and "string_or_falsy z"
  shows "scoreRow_js cs rowText p c z = Inr (scoreRow cs rowText p (string_of c) (string_of z))"
  unfolding scoreRow_js_def scoreRow_def
  by (simp only: norm_js_ok [OF assms(1)] norm_js_ok [OF assms(2)]
      truthy_string_of [OF assms(1)] truthy_string_of [OF assms(2)]
      Let_def prod.case sum.case if_distrib [of "case_sum _ _"] if_distrib [of Inr]
      if_distrib [of "case_prod _"])


lemma score_row_js_ok:
  assumes "string_or_falsy c" and "string_or_falsy z"
  shows "score_row_js p c z r = Inr (score_row p (string_of c) (string_of z) r)"
  by (simp add: score_row_js_def score_row_def scoreRow_js_ok [OF assms] split: prod.split)

lemma score_rows_js_ok:
  assumes "string_or_falsy c" and "string_or_falsy z"
  shows "score_rows_js rows p c z = Inr (score_rows rows p (string_of c) (string_of z))"
  by (induction rows) (simp_all add: score_rows_def score_row_js_ok [OF assms])

lemma best_js_ok:
  assumes "string_or_falsy c" and "string_or_falsy z"
  shows "best_js rows p c z = Inr (best rows p (string_of c) (string_of z))"
  by (simp add: best_js_def best_def scored_def score_rows_js_ok [OF assms])

lemma best_cases:
  "case best rows p c z of
     None \<Rightarrow> rows = []
   | Some b \<Rightarrow> rows \<noteq> [] \<and> b \<in> set (score_rows rows p c z)"
proof (cases "rows = []")
  case True
  then show ?thesis by (simp add: best_def)
next
  case False
  then have "scored rows p c z \<noteq> []" by (simp add: scored_def score_rows_def)
  then have "hd (scored rows p c z) \<in> set (scored rows p c z)" by (rule hd_in_set)
  then have "hd (scored rows p c z) \<in> set (score_rows rows p c z)" by (simp add: scored_def)
  with False show ?thesis by (simp add: best_eq)
qed

lemma parseAddress_Nil: "parseAddress [] = \<lparr> house = [], street = [], tokens = [] \<rparr>"
  by (simp add: parseAddress_def match_house_rest_def norm_def toLowerCase_def)

section \<open>The claims\<close>

text \<open>
  Claim C1. For every row, every parsed address (the result of \<^const>\<open>parseAddress\<close>) and
  every pair of hints, the score \<^const>\<open>scoreRow\<close> returns is the sum of the six signals'
  points as the specification's table defines them, each a function of its own inputs
  only; the score is a non-negative integer; and the values of the returned breakdown add
  up to the score. (The scores are small integers, far below \<open>2^53\<close>, so the
  floating-point additions of the source are exact.)
\<close>

theorem score_is_sum_of_signals:
  "fst (scoreRow cs rowText (parseAddress a) c z) =
     house_points (parseAddress a) cs rowText + zip_points z rowText + city_points c cs rowText +
     street_points (parseAddress a) cs rowText + email_points cs + phone_points cs \<and>
   0 \<le> fst (scoreRow cs rowText (parseAddress a) c z) \<and>
   sum_list (map snd (snd (scoreRow cs rowText (parseAddress a) c z))) =
     fst (scoreRow cs rowText (parseAddress a) c z)"
proof (intro conjI)
  show "fst (scoreRow cs rowText (parseAddress a) c z) =
     house_points (parseAddress a) cs rowText + zip_points z rowText + city_points c cs rowText +
     street_points (parseAddress a) cs rowText + email_points cs + phone_points cs"
    by (simp add: scoreRow_score house_points_def zip_points_def city_points_def
        email_points_def phone_points_def street_hits_parseAddress)
  show "0 \<le> fst (scoreRow cs rowText (parseAddress a) c z)"
    using street_hits_nonneg [of "parseAddress a" cs rowText] by (simp add: scoreRow_score)
  show "sum_list (map snd (snd (scoreRow cs rowText (parseAddress a) c z))) =
     fst (scoreRow cs rowText (parseAddress a) c z)"
    by (rule sum_breakdown)
qed

text \<open>
  Claim C2. For a non-empty list of rows, the row selected is the one at the least index
  among the rows of maximal score: no row scores more, and every row before it scores
  strictly less. So of two rows with the same score the one at the greater index is
  never the selected one. More generally the sort keeps the rows of any one score in
  their original order, and it sorts by descending score. (The source's rows carry no
  index of their own; the index is the position in \<^verbatim>\<open>rowsData\<close>.)
\<close>

theorem selection_stable_under_ties:
  assumes "rows \<noteq> []"
  shows "(\<exists>k < length rows.
            best rows p c z = Some (score_row p c z (rows ! k)) \<and>
            (\<forall>j < length rows. score (score_row p c z (rows ! j)) \<le> score (score_row p c z (rows ! k))) \<and>
            (\<forall>j < k. score (score_row p c z (rows ! j)) < score (score_row p c z (rows ! k))) \<and>
            (\<forall>i j. i < j \<and> j < length rows \<and>
                   score (score_row p c z (rows ! i)) = score (score_row p c z (rows ! j))
                   \<longrightarrow> k \<noteq> j)) \<and>
         (\<forall>s. filter (\<lambda>r. score r = s) (scored rows p c z) =
              filter (\<lambda>r. score r = s) (score_rows rows p c z)) \<and>
         sorted_wrt (\<lambda>a b. score b \<le> score a) (scored rows p c z)"
proof (intro conjI)
  let ?xs = "score_rows rows p c z"
  from assms have ne: "?xs \<noteq> []" by (simp add: score_rows_def)
  from hd_js_sort_first_max [OF ne, of score]
  obtain k where k: "k < length ?xs" "hd (js_sort (\<lambda>a b. score b - score a) ?xs) = ?xs ! k"
    "\<forall>j < length ?xs. score (?xs ! j) \<le> score (?xs ! k)"
    "\<forall>j < k. score (?xs ! j) < score (?xs ! k)"
    by blast
  have len: "length ?xs = length rows" by (simp add: score_rows_def)
  have nth: "?xs ! j = score_row p c z (rows ! j)" if "j < length rows" for j
    using that by (simp add: score_rows_def)
  have sel: "best rows p c z = Some (score_row p c z (rows ! k))"
    using assms k(1,2) len nth [of k] by (simp add: best_eq scored_def)
  have top: "\<forall>j < length rows. score (score_row p c z (rows ! j)) \<le> score (score_row p c z (rows ! k))"
    using k(1,3) len nth by metis
  have first: "\<forall>j < k. score (score_row p c z (rows ! j)) < score (score_row p c z (rows ! k))"
  proof (intro allI impI)
    fix j assume "j < k"
    with k(1) len have "j < length rows" "k < length rows" by simp_all
    with k(4) \<open>j < k\<close> nth show "score (score_row p c z (rows ! j)) < score (score_row p c z (rows ! k))"
      by metis
  qed
  have tie: "\<forall>i j. i < j \<and> j < length rows \<and>
                   score (score_row p c z (rows ! i)) = score (score_row p c z (rows ! j))
                   \<longrightarrow> k \<noteq> j"
  proof (intro allI impI notI)
    fix i j
    assume a: "i < j \<and> j < length rows \<and>
                   score (score_row p c z (rows ! i)) = score (score_row p c z (rows ! j))"
      and "k = j"
    with first have "score (score_row p c z (rows ! i)) < score (score_row p c z (rows ! k))"
      by blast
    with a \<open>k = j\<close> show False by simp
  qed
  from k(1) len have "k < length rows" by simp
  with sel top first tie show "\<exists>k < length rows.
            best rows p c z = Some (score_row p c z (rows ! k)) \<and>
            (\<forall>j < length rows. score (score_row p c z (rows ! j)) \<le> score (score_row p c z (rows ! k))) \<and>
            (\<forall>j < k. score (score_row p c z (rows ! j)) < score (score_row p c z (rows ! k))) \<and>
            (\<forall>i j. i < j \<and> j < length rows \<and>
                   score (score_row p c z (rows ! i)) = score (score_row p c z (rows ! j))
                   \<longrightarrow> k \<noteq> j)"
    by blast
  show "\<forall>s. filter (\<lambda>r. score r = s) (scored rows p c z) =
              filter (\<lambda>r. score r = s) (score_rows rows p c z)"
    by (simp add: scored_def js_sort_stable)
  show "sorted_wrt (\<lambda>a b. score b \<le> score a) (scored rows p c z)"
    unfolding scored_def by (rule js_sort_descending)
qed

text \<open>
  Rows 0 and 2 of the example rows tie at 66 behind a row that scores 0: the earlier of
  the two, at index 1 of the list, is selected.
\<close>

theorem selection_stable_under_ties_witness:
  "tie_rows \<noteq> [] \<and>
   best tie_rows (parseAddress ''1462 22nd'') [] [] =
     Some (score_row (parseAddress ''1462 22nd'') [] [] (tie_rows ! 1)) \<and>
   score (score_row (parseAddress ''1462 22nd'') [] [] (tie_rows ! 1)) =
     score (score_row (parseAddress ''1462 22nd'') [] [] (tie_rows ! 2)) \<and>
   (\<exists>k < length tie_rows.
      best tie_rows (parseAddress ''1462 22nd'') [] [] =
        Some (score_row (parseAddress ''1462 22nd'') [] [] (tie_rows ! k)) \<and>
      (\<forall>j < length tie_rows.
         score (score_row (parseAddress ''1462 22nd'') [] [] (tie_rows ! j))
         \<le> score (score_row (parseAddress ''1462 22nd'') [] [] (tie_rows ! k))) \<and>
      (\<forall>j < k.
         score (score_row (parseAddress ''1462 22nd'') [] [] (tie_rows ! j))
         < score (score_row (parseAddress ''1462 22nd'') [] [] (tie_rows ! k))) \<and>
      (\<forall>i j. i < j \<and> j < length tie_rows \<and>
             score (score_row (parseAddress ''1462 22nd'') [] [] (tie_rows ! i)) =
             score (score_row (parseAddress ''1462 22nd'') [] [] (tie_rows ! j))
             \<longrightarrow> k \<noteq> j)) \<and>
   (\<forall>s. filter (\<lambda>r. score r = s) (scored tie_rows (parseAddress ''1462 22nd'') [] []) =
        filter (\<lambda>r. score r = s) (score_rows tie_rows (parseAddress ''1462 22nd'') [] [])) \<and>
   sorted_wrt (\<lambda>a b. score b \<le> score a) (scored tie_rows (parseAddress ''1462 22nd'') [] [])"
proof -
  have h: "tie_rows \<noteq> []" by (simp add: tie_rows_def)
  have b: "best tie_rows (parseAddress ''1462 22nd'') [] [] =
     Some (score_row (parseAddress ''1462 22nd'') [] [] (tie_rows ! 1))"
    by code_simp
  have t: "score (score_row (parseAddress ''1462 22nd'') [] [] (tie_rows ! 1)) =
     score (score_row (parseAddress ''1462 22nd'') [] [] (tie_rows ! 2))"
    by code_simp
  show ?thesis
    by (rule conjI [OF h conjI [OF b conjI [OF t selection_stable_under_ties [OF h]]]])
qed

text \<open>
  Claim C3 says that the breakdown never holds a zero-value entry. It does: row 1 of the
  example scores 0, and its breakdown is the single entry \<^verbatim>\<open>streetTokens: 0\<close>, which
  \<^const>\<open>scoreRow\<close> writes whether or not a token matched.
\<close>

theorem breakdown_zero_entry:
  "fst (scoreRow (cells example_row1) (row_text example_row1) (parseAddress ''1462 22nd'') [] []) = 0 \<and>
   snd (scoreRow (cells example_row1) (row_text example_row1) (parseAddress ''1462 22nd'') [] []) =
     [(''streetTokens'', 0)]"
  by (rule conjI; code_simp)

text \<open>
  Claim C3, amended. The breakdown holds the key \<^verbatim>\<open>house\<close>, \<^verbatim>\<open>zip\<close>,
  \<^verbatim>\<open>city\<close>, \<^verbatim>\<open>email\<close> or \<^verbatim>\<open>phone\<close> exactly when that signal fired, with
  its points (50, 40, 20, 3, 3); the key \<^verbatim>\<open>streetTokens\<close> is always there and holds
  5 times the number of matching tokens, which is 0 when none matched. No key occurs
  twice and there are no other keys.
\<close>

theorem breakdown_keys:
  "map_of (snd (scoreRow cs rowText p c z)) ''house'' =
     (if house_match p cs rowText then Some 50 else None) \<and>
   map_of (snd (scoreRow cs rowText p c z)) ''zip'' =
     (if zip_match z rowText then Some 40 else None) \<and>
   map_of (snd (scoreRow cs rowText p c z)) ''city'' =
     (if city_match c cs rowText then Some 20 else None) \<and>
   map_of (snd (scoreRow cs rowText p c z)) ''streetTokens'' = Some (5 * street_hits p cs rowText) \<and>
   map_of (snd (scoreRow cs rowText p c z)) ''email'' =
     (if email_present cs then Some 3 else None) \<and>
   map_of (snd (scoreRow cs rowText p c z)) ''phone'' =
     (if phone_present cs then Some 3 else None) \<and>
   distinct (map fst (snd (scoreRow cs rowText p c z))) \<and>
   set (map fst (snd (scoreRow cs rowText p c z))) \<subseteq>
     {''house'', ''zip'', ''city'', ''streetTokens'', ''email'', ''phone''}"
  by (simp add: scoreRow_breakdown)

text \<open>
  Claim C4. The end-to-end example of the specification: for the address
  \<^verbatim>\<open>1462 22nd\<close> and no hints, row 0 scores exactly 66 (house 50, two street tokens 10,
  email 3, phone 3), row 1 scores exactly 0, and row 0 is selected.
\<close>

theorem example_scores:
  "scoreRow (cells example_row0) (row_text example_row0) (parseAddress ''1462 22nd'') [] [] =
     (66, [(''house'', 50), (''streetTokens'', 10), (''email'', 3), (''phone'', 3)]) \<and>
   fst (scoreRow (cells example_row1) (row_text example_row1) (parseAddress ''1462 22nd'') [] []) = 0 \<and>
   best [example_row0, example_row1] (parseAddress ''1462 22nd'') [] [] =
     Some \<lparr> row_text = row_text example_row0, cells = cells example_row0, score = 66,
            breakdown = [(''house'', 50), (''streetTokens'', 10), (''email'', 3), (''phone'', 3)] \<rparr>"
proof (intro conjI)
  show "scoreRow (cells example_row0) (row_text example_row0) (parseAddress ''1462 22nd'') [] [] =
     (66, [(''house'', 50), (''streetTokens'', 10), (''email'', 3), (''phone'', 3)])"
    by code_simp
  show "fst (scoreRow (cells example_row1) (row_text example_row1) (parseAddress ''1462 22nd'') [] []) = 0"
    by code_simp
  show "best [example_row0, example_row1] (parseAddress ''1462 22nd'') [] [] =
     Some \<lparr> row_text = row_text example_row0, cells = cells example_row0, score = 66,
            breakdown = [(''house'', 50), (''streetTokens'', 10), (''email'', 3), (''phone'', 3)] \<rparr>"
    by code_simp
qed

text \<open>
  Claim C5. With everything else the same, a non-empty city hint whose normalization
  occurs in the normalized row text or in the normalized service location scores exactly
  20 more than the empty hint; and no city hint scores less than the empty hint.
\<close>

theorem city_hint_adds_20:
  assumes "c \<noteq> []"
    and "includes_str (norm rowText) (norm c) \<or> includes_str (norm (serviceLocation cs)) (norm c)"
  shows "fst (scoreRow cs rowText p c z) = fst (scoreRow cs rowText p [] z) + 20 \<and>
         (\<forall>c'. fst (scoreRow cs rowText p [] z) \<le> fst (scoreRow cs rowText p c' z))"
  using assms by (simp add: scoreRow_score city_match_def)

text \<open>The hint \<^verbatim>\<open>Denver\<close> on row 0 of the example.\<close>

theorem city_hint_adds_20_witness:
  "''Denver'' \<noteq> [] \<and>
   (includes_str (norm (row_text example_row0)) (norm ''Denver'') \<or>
    includes_str (norm (serviceLocation (cells example_row0))) (norm ''Denver'')) \<and>
   fst (scoreRow (cells example_row0) (row_text example_row0) (parseAddress ''1462 22nd'') ''Denver'' []) =
     fst (scoreRow (cells example_row0) (row_text example_row0) (parseAddress ''1462 22nd'') [] []) + 20 \<and>
   (\<forall>c'. fst (scoreRow (cells example_row0) (row_text example_row0) (parseAddress ''1462 22nd'') [] [])
        \<le> fst (scoreRow (cells example_row0) (row_text example_row0) (parseAddress ''1462 22nd'') c' []))"
proof -
  have h1: "''Denver'' \<noteq> []" by simp
  have h2: "includes_str (norm (row_text example_row0)) (norm ''Denver'') \<or>
    includes_str (norm (serviceLocation (cells example_row0))) (norm ''Denver'')"
    by code_simp
  show ?thesis
    by (rule conjI [OF h1 conjI [OF h2 city_hint_adds_20 [OF h1 h2]]])
qed

text \<open>
  Claim C6 at an address of two lines. The trimmed address starts with the digits
  \<^verbatim>\<open>1462\<close> followed by a space, yet the house number comes out empty and the street
  is the whole address: \<^verbatim>\<open>.\<close> does not match the line feed, so the regular expression
  does not match at all. (For an address whose text after the house number holds no line
  terminator the claim holds: \<open>parseAddress_house_single_line\<close>; and with no leading
  digit the house number is empty and the street is the trimmed address:
  \<open>parseAddress_no_leading_digits\<close>.)
\<close>

theorem parseAddress_multiline:
  "trim multiline_address = multiline_address \<and>
   takeWhile is_digit multiline_address = ''1462'' \<and>
   is_space (hd (dropWhile is_digit multiline_address)) \<and>
   house (parseAddress multiline_address) = [] \<and>
   street (parseAddress multiline_address) = multiline_address"
  by (intro conjI; code_simp)

text \<open>
  Claim C7 says that parsing and scoring raise no error for any input. The source checks
  no types: an address or a hint that is a number, as the Actor's JSON input may hold
  one, is truthy, \<^verbatim>\<open>s || ''\<close> keeps it, and the string method then called on it does
  not exist. Parsing the number 1462 raises a TypeError, and so do scoring with the zip
  hint 80202 and the selection over the example's rows with that hint.
\<close>

theorem non_string_input_raises:
  "parseAddress_js (Num 1462) = Inl TypeError \<and>
   scoreRow_js (cells example_row0) (row_text example_row0) (parseAddress ''1462 22nd'')
     (Str []) (Num 80202) = Inl TypeError \<and>
   best_js [example_row0, example_row1] (parseAddress ''1462 22nd'') (Str []) (Num 80202) =
     Inl TypeError"
proof (intro conjI)
  show "parseAddress_js (Num 1462) = Inl TypeError"
    by (simp add: parseAddress_js_def or_empty_def truthy_def)
  show s: "scoreRow_js cs rowText p (Str []) (Num 80202) = Inl TypeError" for cs rowText p
    by (simp add: scoreRow_js_def norm_js_def or_empty_def truthy_def Let_def split: prod.split)
  show "best_js [example_row0, example_row1] (parseAddress ''1462 22nd'') (Str []) (Num 80202) =
     Inl TypeError"
    by (simp add: best_js_def score_row_js_def s)
qed

text \<open>
  Claim C7, amended. With no rows the selection is \<^const>\<open>None\<close> whatever the hints
  are: nothing is scored, nothing is thrown and no row is made up. For an address and
  hints that are strings or falsy (absent, \<^verbatim>\<open>null\<close>, empty), parsing and scoring
  raise no error and give what \<^const>\<open>parseAddress\<close> and \<^const>\<open>scoreRow\<close> give on the
  strings; the selection then raises no error either, is \<^const>\<open>None\<close> only for no
  rows and is otherwise one of the scored input rows. The absent and the empty address
  parse to the empty house number, street and tokens, and scoring against that with both
  hints absent gives the email and phone points.
\<close>

theorem no_result_and_no_errors:
  assumes "string_or_falsy address" and "string_or_falsy cityHint" and "string_or_falsy zipHint"
  shows "best_js [] p anyCity anyZip = Inr None \<and>
         parseAddress_js address = Inr (parseAddress (string_of address)) \<and>
         scoreRow_js cs rowText p cityHint zipHint =
           Inr (scoreRow cs rowText p (string_of cityHint) (string_of zipHint)) \<and>
         (case best_js rows p cityHint zipHint of
            Inl e \<Rightarrow> False
          | Inr None \<Rightarrow> rows = []
          | Inr (Some b) \<Rightarrow>
              rows \<noteq> [] \<and>
              b \<in> set (score_rows rows p (string_of cityHint) (string_of zipHint))) \<and>
         parseAddress_js Undefined = Inr \<lparr> house = [], street = [], tokens = [] \<rparr> \<and>
         parseAddress_js (Str []) = Inr \<lparr> house = [], street = [], tokens = [] \<rparr> \<and>
         scoreRow_js cs rowText (parseAddress []) Undefined Undefined =
           Inr (scoreRow cs rowText (parseAddress []) [] []) \<and>
         fst (scoreRow cs rowText (parseAddress []) [] []) = email_points cs + phone_points cs"
proof (intro conjI)
  show "best_js [] p anyCity anyZip = Inr None" by (simp add: best_js_def)
  show "parseAddress_js address = Inr (parseAddress (string_of address))"
    using assms(1) by (rule parseAddress_js_ok)
  show "scoreRow_js cs rowText p cityHint zipHint =
           Inr (scoreRow cs rowText p (string_of cityHint) (string_of zipHint))"
    using assms(2,3) by (rule scoreRow_js_ok)
  show "case best_js rows p cityHint zipHint of
            Inl e \<Rightarrow> False
          | Inr None \<Rightarrow> rows = []
          | Inr (Some b) \<Rightarrow>
              rows \<noteq> [] \<and>
              b \<in> set (score_rows rows p (string_of cityHint) (string_of zipHint))"
    using best_cases [of rows p "string_of cityHint" "string_of zipHint"]
    by (simp add: best_js_ok [OF assms(2,3)])
  have u: "string_or_falsy Undefined" "string_or_falsy (Str [])"
    by (simp_all add: string_or_falsy_def truthy_def)
  show "parseAddress_js Undefined = Inr \<lparr> house = [], street = [], tokens = [] \<rparr>"
    by (simp add: parseAddress_js_ok [OF u(1)] string_of_def parseAddress_Nil)
  show "parseAddress_js (Str []) = Inr \<lparr> house = [], street = [], tokens = [] \<rparr>"
    by (simp add: parseAddress_js_ok [OF u(2)] string_of_def parseAddress_Nil)
  show "scoreRow_js cs rowText (parseAddress []) Undefined Undefined =
           Inr (scoreRow cs rowText (parseAddress []) [] [])"
    by (simp add: scoreRow_js_ok [OF u(1) u(1)] string_of_def)
  show "fst (scoreRow cs rowText (parseAddress []) [] []) = email_points cs + phone_points cs"
    by (simp add: scoreRow_score parseAddress_Nil house_match_def zip_match_def city_match_def
        street_hits_def email_points_def phone_points_def)
qed

text \<open>
  The address \<^verbatim>\<open>1462 22nd\<close>, the city hint absent and the zip hint empty, on the two
  rows of the example; and no rows with hints that are not even strings.
\<close>

theorem no_result_and_no_errors_witness:
  "string_or_falsy (Str ''1462 22nd'') \<and> string_or_falsy Undefined \<and> string_or_falsy (Str []) \<and>
   best_js [] (parseAddress ''1462 22nd'') (Num 5) Object = Inr None \<and>
   parseAddress_js (Str ''1462 22nd'') = Inr (parseAddress (string_of (Str ''1462 22nd''))) \<and>
   scoreRow_js (cells example_row0) (row_text example_row0) (parseAddress ''1462 22nd'') Undefined (Str []) =
     Inr (scoreRow (cells example_row0) (row_text example_row0) (parseAddress ''1462 22nd'')
            (string_of Undefined) (string_of (Str []))) \<and>
   (case best_js [example_row0, example_row1] (parseAddress ''1462 22nd'') Undefined (Str []) of
      Inl e \<Rightarrow> False
    | Inr None \<Rightarrow> [example_row0, example_row1] = []
    | Inr (Some b) \<Rightarrow>
        [example_row0, example_row1] \<noteq> [] \<and>
        b \<in> set (score_rows [example_row0, example_row1] (parseAddress ''1462 22nd'')
                   (string_of Undefined) (string_of (Str [])))) \<and>
   parseAddress_js Undefined = Inr \<lparr> house = [], street = [], tokens = [] \<rparr> \<and>
   parseAddress_js (Str []) = Inr \<lparr> house = [], street = [], tokens = [] \<rparr> \<and>
   scoreRow_js (cells example_row0) (row_text example_row0) (parseAddress []) Undefined Undefined =
     Inr (scoreRow (cells example_row0) (row_text example_row0) (parseAddress []) [] []) \<and>
   fst (scoreRow (cells example_row0) (row_text example_row0) (parseAddress []) [] []) =
     email_points (cells example_row0) + phone_points (cells example_row0)"
proof -
  have h1: "string_or_falsy (Str ''1462 22nd'')" by (simp add: string_or_falsy_def)
  have h2: "string_or_falsy Undefined" by (simp add: string_or_falsy_def truthy_def)
  have h3: "string_or_falsy (Str [])" by (simp add: string_or_falsy_def)
  show ?thesis
    by (rule conjI [OF h1 conjI [OF h2 conjI [OF h3 no_result_and_no_errors [OF h1 h2 h3]]]])
qed

text \<open>
  Claim C8. When every row of a non-empty list scores 0, the first row of the list is
  selected.
\<close>

theorem all_zero_selects_first:
  assumes "rows \<noteq> []"
    and "\<forall>r \<in> set rows. fst (scoreRow (cells r) (row_text r) p c z) = 0"
  shows "best rows p c z = Some (score_row p c z (rows ! 0)) \<and>
         row_of (score_row p c z (rows ! 0)) = rows ! 0 \<and>
         score (score_row p c z (rows ! 0)) = 0"
proof -
  let ?xs = "score_rows rows p c z"
  from assms(1) have ne: "?xs \<noteq> []" by (simp add: score_rows_def)
  from hd_js_sort_first_max [OF ne, of score]
  obtain k where k: "k < length ?xs" "hd (js_sort (\<lambda>a b. score b - score a) ?xs) = ?xs ! k"
    "\<forall>j < k. score (?xs ! j) < score (?xs ! k)"
    by blast
  have zero: "score (?xs ! j) = 0" if "j < length ?xs" for j
    using that assms(2) by (simp add: score_rows_def)
  have "k = 0"
  proof (rule ccontr)
    assume "k \<noteq> 0"
    then have "0 < k" by simp
    with k(3) have "score (?xs ! 0) < score (?xs ! k)" by blast
    moreover from ne have "0 < length ?xs" by simp
    then have "score (?xs ! 0) = 0" by (rule zero)
    moreover from k(1) have "score (?xs ! k) = 0" by (rule zero)
    ultimately show False by simp
  qed
  with k(2) ne assms(1) have "best rows p c z = Some (score_row p c z (rows ! 0))"
    by (simp add: best_eq scored_def score_rows_def)
  moreover from assms have "score (score_row p c z (rows ! 0)) = 0"
    by (cases rows) simp_all
  ultimately show ?thesis by simp
qed

text \<open>Two rows that share nothing with the address \<^verbatim>\<open>1462 22nd\<close>.\<close>

theorem all_zero_selects_first_witness:
  "zero_rows \<noteq> [] \<and>
   list_all (\<lambda>r. fst (scoreRow (cells r) (row_text r) (parseAddress ''1462 22nd'') [] []) = 0)
     zero_rows \<and>
   best zero_rows (parseAddress ''1462 22nd'') [] [] =
     Some (score_row (parseAddress ''1462 22nd'') [] [] (zero_rows ! 0)) \<and>
   row_of (score_row (parseAddress ''1462 22nd'') [] [] (zero_rows ! 0)) = zero_rows ! 0 \<and>
   score (score_row (parseAddress ''1462 22nd'') [] [] (zero_rows ! 0)) = 0"
proof -
  have h1: "zero_rows \<noteq> []" by (simp add: zero_rows_def)
  have h2: "list_all (\<lambda>r. fst (scoreRow (cells r) (row_text r) (parseAddress ''1462 22nd'') [] []) = 0)
     zero_rows"
    by code_simp
  then have h3: "\<forall>r \<in> set zero_rows.
     fst (scoreRow (cells r) (row_text r) (parseAddress ''1462 22nd'') [] []) = 0"
    by (simp only: list_all_iff)
  show ?thesis
    by (rule conjI [OF h1 conjI [OF h2 all_zero_selects_first [OF h1 h3]]])
qed

text \<open>
  Claim C9 speaks of every pair of addresses that differ only in letter case. The two
  spellings \<^verbatim>\<open>HAUPTSTRASSE 5\<close> and \<^verbatim>\<open>Hauptstrasse 5\<close> with the sharp s for
  \<^verbatim>\<open>ss\<close> are equal after \<^verbatim>\<open>toUpperCase\<close>, and their whitespace is the same, yet
  their tokens differ: \<^verbatim>\<open>toLowerCase\<close> turns SS into ss and leaves the sharp s.
\<close>

theorem case_variant_tokens_differ:
  "toUpperCase strasse_upper = toUpperCase strasse_eszett \<and>
   tokens (parseAddress strasse_upper) = [''hauptstrasse'', ''5''] \<and>
   tokens (parseAddress strasse_eszett) = [''hauptstra'' @ [CHR 0xDF] @ ''e'', ''5''] \<and>
   tokens (parseAddress strasse_upper) \<noteq> tokens (parseAddress strasse_eszett)"
  by (intro conjI; code_simp)

text \<open>
  Claim C9, amended. Two addresses of code units below U+0100 that agree character by
  character up to the case of the single character, while their whitespace runs may
  differ in length (\<^const>\<open>case_space_variant\<close>), have the same tokens. A character and
  its case variant of another length, as the sharp s and SS, are not such a pair.
\<close>

theorem tokens_case_space_invariant:
  "case_space_variant s t \<Longrightarrow> tokens (parseAddress s) = tokens (parseAddress t)"
  using variant_pieces [of s t] by (simp add: tokens_parseAddress words_by_hd_tl)

text \<open>The specification's pair, \<^verbatim>\<open>123  Main St\<close> and \<^verbatim>\<open>123 main st\<close>.\<close>

theorem tokens_case_space_invariant_witness:
  "case_space_variant ''123  Main St'' ''123 main st'' \<and>
   tokens (parseAddress ''123  Main St'') = tokens (parseAddress ''123 main st'')"
proof -
  have low: "toLowerCase_char CHR ''M'' = toLowerCase_char CHR ''m''"
    "toLowerCase_char CHR ''S'' = toLowerCase_char CHR ''s''"
    by code_simp+
  have a: "case_space_variant '' Main St'' '' main st''"
    by (intro case_space_variant.Letter case_space_variant.Done) (simp_all add: low)
  have b: "case_space_variant ''  Main St'' '' main st''"
    by (rule case_space_variant.LongerL) (simp_all add: a)
  have v: "case_space_variant ''123  Main St'' ''123 main st''"
    by (intro case_space_variant.Letter b) simp_all
  show ?thesis
    by (rule conjI [OF v tokens_case_space_invariant [OF v]])
qed

text \<open>
  Claim C10. A zip hint that is not empty but all whitespace adds exactly 40 to the score
  of any row, whatever the row holds, and the breakdown records \<^verbatim>\<open>zip: 40\<close>. The
  whole ranking, and so the selected row, is the one the empty zip hint gives, with every
  score 40 higher.
\<close>

theorem blank_zip_hint_adds_40:
  assumes "z \<noteq> []" and "list_all is_space z"
  shows "fst (scoreRow cs rowText p c z) = fst (scoreRow cs rowText p c []) + 40 \<and>
         map_of (snd (scoreRow cs rowText p c z)) ''zip'' = Some 40 \<and>
         map row_of (scored rows p c z) = map row_of (scored rows p c []) \<and>
         map score (scored rows p c z) = map (\<lambda>r. score r + 40) (scored rows p c []) \<and>
         map_option row_of (best rows p c z) = map_option row_of (best rows p c [])"
proof -
  have fires: "zip_match z t" for t
    using assms by (simp add: zip_match_def norm_blank)
  have plus: "fst (scoreRow cs' t p c z) = fst (scoreRow cs' t p c []) + 40" for cs' t
    using fires [of t] by (simp add: scoreRow_score zip_match_def)
  have entry: "map_of (snd (scoreRow cs rowText p c z)) ''zip'' = Some 40"
    using fires [of rowText] by (simp add: scoreRow_breakdown)
  have same: "scored rows p c z =
     map (score_row p c z)
       (js_sort (\<lambda>a b. fst (scoreRow (cells b) (row_text b) p c []) -
                        fst (scoreRow (cells a) (row_text a) p c [])) rows)"
    by (simp add: scored_map plus)
  have rows_eq: "map row_of (scored rows p c z) = map row_of (scored rows p c [])"
    by (simp add: same scored_map [of rows p c "[]"])
  have scores_eq: "map score (scored rows p c z) = map (\<lambda>r. score r + 40) (scored rows p c [])"
    by (simp add: same scored_map [of rows p c "[]"] plus)
  have "map_option row_of (best rows p c z) = map_option row_of (best rows p c [])"
  proof (cases "rows = []")
    case True
    then show ?thesis by (simp add: best_def)
  next
    case False
    then have ne: "scored rows p c z \<noteq> []" "scored rows p c [] \<noteq> []"
      by (simp_all add: scored_def score_rows_def)
    then have "row_of (hd (scored rows p c z)) = hd (map row_of (scored rows p c z))"
      "row_of (hd (scored rows p c [])) = hd (map row_of (scored rows p c []))"
      by (simp_all add: hd_map)
    with rows_eq False show ?thesis by (simp add: best_eq)
  qed
  with plus entry rows_eq scores_eq show ?thesis by simp
qed

text \<open>The zip hint of two spaces, on the rows of the example in reverse order.\<close>

theorem blank_zip_hint_adds_40_witness:
  "''  '' \<noteq> [] \<and> list_all is_space ''  '' \<and>
   fst (scoreRow (cells example_row1) (row_text example_row1) (parseAddress ''1462 22nd'') [] ''  '') =
     fst (scoreRow (cells example_row1) (row_text example_row1) (parseAddress ''1462 22nd'') [] []) + 40 \<and>
   map_of (snd (scoreRow (cells example_row1) (row_text example_row1) (parseAddress ''1462 22nd'') [] ''  ''))
     ''zip'' = Some 40 \<and>
   map row_of (scored [example_row1, example_row0] (parseAddress ''1462 22nd'') [] ''  '') =
     map row_of (scored [example_row1, example_row0] (parseAddress ''1462 22nd'') [] []) \<and>
   map score (scored [example_row1, example_row0] (parseAddress ''1462 22nd'') [] ''  '') =
     map (\<lambda>r. score r + 40) (scored [example_row1, example_row0] (parseAddress ''1462 22nd'') [] []) \<and>
   map_option row_of (best [example_row1, example_row0] (parseAddress ''1462 22nd'') [] ''  '') =
     map_option row_of (best [example_row1, example_row0] (parseAddress ''1462 22nd'') [] [])"
proof -
  have h1: "''  '' \<noteq> []" by simp
  have h2: "list_all is_space ''  ''" by simp
  show ?thesis
    by (rule conjI [OF h1 conjI [OF h2 blank_zip_hint_adds_40 [OF h1 h2]]])
qed

end
